theory Spec2Isabelle
  imports Main "HOL-Library.Word"
begin

section \<open>JavaScript strings\<close>

text \<open>
  A JavaScript string is a sequence of 16-bit code units; \<open>length\<close>, the regular
  expressions without the \<open>u\<close> flag and \<open>trim\<close> all work on code units. String
  literals of the source are ASCII and are written with \<open>lit\<close>.
\<close>

type_synonym code_unit = "16 word"
type_synonym jsstring = "code_unit list"
type_synonym bytes = "8 word list"

definition lit :: "string \<Rightarrow> jsstring" where
  "lit s = map (\<lambda>c. of_nat (of_char c)) s"

definition SP :: code_unit where "SP = 0x20"
definition LF :: code_unit where "LF = 0x0A"
definition CR :: code_unit where "CR = 0x0D"

text \<open>
  The class \<open>\s\<close> of a JavaScript regular expression, which is also what
  \<open>String.prototype.trim\<close> strips: the WhiteSpace and LineTerminator code points of
  ECMAScript (tab, vertical tab, form feed, space, no-break space, the byte order mark, the
  space separators of Unicode, line feed, carriage return, line and paragraph separator).
\<close>

definition is_whitespace :: "code_unit \<Rightarrow> bool" where
  "is_whitespace c \<longleftrightarrow>
     c \<in> set [0x09, 0x0A, 0x0B, 0x0C, 0x0D, 0x20, 0xA0, 0x1680, 0x2028, 0x2029,
              0x202F, 0x205F, 0x3000, 0xFEFF]
     \<or> (0x2000 \<le> c \<and> c \<le> 0x200A)"

text \<open>\<open>Array.prototype.join\<close> on an array of strings.\<close>

fun join :: "jsstring \<Rightarrow> jsstring list \<Rightarrow> jsstring" where
  "join sep [] = []"
| "join sep [x] = x"
| "join sep (x # y # ys) = x @ sep @ join sep (y # ys)"

text \<open>
  A non-negative integer inside a template literal: its decimal digits. \<open>Date.now()\<close>
  and array indices are such integers, far below the magnitude at which JavaScript switches
  to exponent notation.
\<close>

definition digit :: "nat \<Rightarrow> code_unit" where
  "digit d = of_nat (48 + d)"

function toString_nat :: "nat \<Rightarrow> jsstring" where
  "toString_nat n = (if n < 10 then [digit n] else toString_nat (n div 10) @ [digit (n mod 10)])"
  by pat_completeness auto
termination
  by (relation "measure id") auto

declare toString_nat.simps [simp del]

section \<open>Cleaning the extracted text\<close>

text \<open>
  \<open>fullText.replace(/\s+/g, " ")\<close>: every maximal run of whitespace becomes one space.
\<close>

function collapse_whitespace :: "jsstring \<Rightarrow> jsstring" where
  "collapse_whitespace [] = []"
| "collapse_whitespace (c # cs) =
     (if is_whitespace c then SP # collapse_whitespace (dropWhile is_whitespace cs)
      else c # collapse_whitespace cs)"
  by pat_completeness auto
termination
  by (relation "measure length") (auto simp: length_dropWhile_le less_Suc_eq_le)

text \<open>
  \<open>.replace(/(\r\n|\n|\r)/gm, " ")\<close>: the alternatives are tried in order at each
  position, so a carriage return followed by a line feed is replaced as one match.
\<close>

fun replace_newlines :: "jsstring \<Rightarrow> jsstring" where
  "replace_newlines [] = []"
| "replace_newlines [c] = (if c = LF \<or> c = CR then [SP] else [c])"
| "replace_newlines (c # d # cs) =
     (if c = CR \<and> d = LF then SP # replace_newlines cs
      else if c = LF \<or> c = CR then SP # replace_newlines (d # cs)
      else c # replace_newlines (d # cs))"

text \<open>\<open>.trim()\<close>: whitespace is removed from both ends.\<close>

definition trim :: "jsstring \<Rightarrow> jsstring" where
  "trim s = rev (dropWhile is_whitespace (rev (dropWhile is_whitespace s)))"

definition normalize_text :: "jsstring \<Rightarrow> jsstring" where
  "normalize_text fullText = trim (replace_newlines (collapse_whitespace fullText))"

section \<open>Data exchanged with the collaborators\<close>

text \<open>
  The result of \<open>pdfExtract.extractBuffer\<close>: \<open>data.pages\<close> may be absent; a page has
  content items, each with its string \<open>str\<close>.
\<close>

record item =
  str :: jsstring

record page =
  content :: "item list"

record pdf_data =
  pages :: "page list option"

text \<open>
  A LangChain \<open>Document\<close>. The handlers read only \<open>pageContent\<close>; the metadata is
  whatever its producer attached.
\<close>

record 'm document =
  pageContent :: jsstring
  metadata :: 'm

text \<open>The metadata object \<open>{ pageContent: ... }\<close> stored with a vector.\<close>

record index_metadata =
  stored_pageContent :: jsstring

text \<open>An element of \<open>upsertRequests\<close>: \<open>{ id, values, metadata }\<close>.\<close>

record 'n upsert_request =
  req_id :: jsstring
  req_values :: "'n list"
  req_metadata :: index_metadata

text \<open>The argument of \<open>pineconeIndex.query\<close> and an element of \<open>queryResponse.matches\<close>.\<close>

record 'n query_request =
  vector :: "'n list"
  topK :: nat
  includeMetadata :: bool

record 'n match =
  match_id :: jsstring
  score :: 'n
  match_metadata :: "index_metadata option"

text \<open>A thrown \<open>Error\<close>; the handlers read its \<open>message\<close>.\<close>

datatype js_error = Error (message: jsstring)

section \<open>The collaborators\<close>

text \<open>
  The PDF extractor, the text splitter, the embedding model, the vector index, the
  retriever and the chat model are libraries and remote services. Within one request each
  of them is called at most once, so a collaborator is given by the result (a value, or a
  thrown error) of that call as a function of its argument. \<open>retriever_invoke\<close> is
  the retriever made by \<open>vectorStore.asRetriever(5)\<close>, which embeds the question and
  queries the index on its own; \<open>model_invoke\<close> is the chat model followed by the
  \<open>StringOutputParser\<close>. \<open>Date.now()\<close> is read once
  per chunk: \<open>date_now k\<close> is the reading of the \<open>k\<close>-th call of a request, in
  milliseconds.
\<close>

record ('n, 'm) services =
  extractBuffer :: "bytes \<Rightarrow> js_error + pdf_data"
  createDocuments :: "jsstring list \<Rightarrow> js_error + 'm document list"
  embedDocuments :: "jsstring list \<Rightarrow> js_error + 'n list list"
  upsert :: "'n upsert_request list \<Rightarrow> js_error + unit"
  embedQuery :: "jsstring \<Rightarrow> js_error + 'n list"
  query :: "'n query_request \<Rightarrow> js_error + 'n match list"
  retriever_invoke :: "jsstring \<Rightarrow> js_error + 'm document list"
  model_invoke :: "jsstring \<Rightarrow> js_error + jsstring"
  date_now :: "nat \<Rightarrow> nat"

text \<open>The calls a request makes, in the order in which it makes them.\<close>

datatype 'n call =
    ExtractBuffer bytes
  | CreateDocuments "jsstring list"
  | EmbedDocuments "jsstring list"
  | Upsert "'n upsert_request list"
  | EmbedQuery jsstring
  | Query "'n query_request"
  | RetrieverInvoke jsstring
  | ModelInvoke jsstring

text \<open>
  A computation inside a \<open>try\<close> block ends with a value or a thrown error, after some
  calls. \<open>await c r k\<close> is the call \<open>c\<close> with result \<open>r\<close>: a thrown error leaves the
  block at once, a value is passed on to the rest \<open>k\<close> of the block.
\<close>

type_synonym ('a, 'n) step = "(js_error + 'a) \<times> 'n call list"

definition await :: "'n call \<Rightarrow> js_error + 'a \<Rightarrow> ('a \<Rightarrow> ('b, 'n) step) \<Rightarrow> ('b, 'n) step" where
  "await c r k =
     (case r of
        Inl e \<Rightarrow> (Inl e, [c])
      | Inr a \<Rightarrow> (case k a of (r', cs) \<Rightarrow> (r', c # cs)))"

section \<open>HTTP responses\<close>

text \<open>
  \<open>res.send\<close> with a string sends it as the body, as text; \<open>res.json\<close> sends a JSON
  object, here always one with string fields.
\<close>

datatype body = Text jsstring | Json "(jsstring \<times> jsstring) list"

record response =
  status :: nat
  body :: body

record 'n outcome =
  response :: response
  calls :: "'n call list"

section \<open>GET /\<close>

definition root :: response where
  "root = \<lparr>status = 200, body = Json [(lit ''message'', lit ''Backend running successfully!'')]\<rparr>"

section \<open>POST /upload-document\<close>

record uploaded_file =
  buffer :: bytes

definition no_text_message :: jsstring where
  "no_text_message = lit ''No text found in PDF or PDF parsing failed.''"

text \<open>
  The text of the pages: the items of a page joined by a space, the pages joined by a blank
  line; an error is thrown when there are no pages.
\<close>

definition page_text :: "page \<Rightarrow> jsstring" where
  "page_text p = join (lit '' '') (map str (content p))"

definition extracted_text :: "pdf_data \<Rightarrow> js_error + jsstring" where
  "extracted_text data =
     (case pages data of
        None \<Rightarrow> Inl (Error no_text_message)
      | Some ps \<Rightarrow>
          if length ps > 0 then Inr (join [LF, LF] (map page_text ps))
          else Inl (Error no_text_message))"

text \<open>
  \<open>docs.map((doc, index) => ...)\<close>: one request per chunk, with the identifier
  \<open>doc-${Date.now()}-${index}\<close>, no values yet, and the chunk's text as metadata.
\<close>

definition make_upsertRequests :: "(nat \<Rightarrow> nat) \<Rightarrow> 'm document list \<Rightarrow> 'n upsert_request list" where
  "make_upsertRequests now docs =
     map (\<lambda>(index, doc).
            \<lparr>req_id = lit ''doc-'' @ toString_nat (now index) @ lit ''-'' @ toString_nat index,
             req_values = [],
             req_metadata = \<lparr>stored_pageContent = pageContent doc\<rparr>\<rparr>)
         (enumerate 0 docs)"

text \<open>
  \<open>chunkEmbeddings.forEach((embedding, index) => { upsertRequests[index].values = embedding })\<close>.
  When there are more embeddings than requests, \<open>upsertRequests[index]\<close> is undefined
  and the assignment throws a TypeError (the message is the one of V8).
\<close>

definition set_values_message :: jsstring where
  "set_values_message = lit ''Cannot set properties of undefined (setting 'values')''"

fun assign_values :: "'n upsert_request list \<Rightarrow> 'n list list \<Rightarrow> nat \<Rightarrow> js_error + 'n upsert_request list" where
  "assign_values upsertRequests [] index = Inr upsertRequests"
| "assign_values upsertRequests (embedding # rest) index =
     (if index < length upsertRequests
      then assign_values
             (upsertRequests[index := (upsertRequests ! index)\<lparr>req_values := embedding\<rparr>])
             rest (Suc index)
      else Inl (Error set_values_message))"

text \<open>The body of the \<open>try\<close> block. Logging has no effect on the result and is left out.\<close>

definition upload_try :: "('n, 'm) services \<Rightarrow> bytes \<Rightarrow> (response, 'n) step" where
  "upload_try sv buf =
     await (ExtractBuffer buf) (extractBuffer sv buf) (\<lambda>data.
       case extracted_text data of
         Inl e \<Rightarrow> (Inl e, [])
       | Inr fullText0 \<Rightarrow>
           let fullText = normalize_text fullText0 in
           await (CreateDocuments [fullText]) (createDocuments sv [fullText]) (\<lambda>docs.
             let upsertRequests = make_upsertRequests (date_now sv) docs;
                 chunkTexts = map pageContent docs in
             await (EmbedDocuments chunkTexts) (embedDocuments sv chunkTexts) (\<lambda>chunkEmbeddings.
               case assign_values upsertRequests chunkEmbeddings 0 of
                 Inl e \<Rightarrow> (Inl e, [])
               | Inr upsertRequests' \<Rightarrow>
                   await (Upsert upsertRequests') (upsert sv upsertRequests') (\<lambda>_.
                     (Inr \<lparr>status = 200,
                           body = Json [(lit ''message'',
                                         lit ''Document processed and indexed successfully.'')]\<rparr>,
                      [])))))"

text \<open>The handler: \<open>req.file\<close> is absent when the form has no field \<open>document\<close>.\<close>

definition upload_document :: "('n, 'm) services \<Rightarrow> uploaded_file option \<Rightarrow> 'n outcome" where
  "upload_document sv file =
     (case file of
        None \<Rightarrow> \<lparr>response = \<lparr>status = 400, body = Text (lit ''No document uploaded.'')\<rparr>, calls = []\<rparr>
      | Some f \<Rightarrow>
          (case upload_try sv (buffer f) of
             (Inr res, cs) \<Rightarrow> \<lparr>response = res, calls = cs\<rparr>
           | (Inl error, cs) \<Rightarrow>
               \<lparr>response = \<lparr>status = 500,
                            body = Json [(lit ''error'',
                                          lit ''Error processing document: '' @ message error)]\<rparr>,
                calls = cs\<rparr>))"

section \<open>POST /ask-question\<close>

definition fallback_answer :: jsstring where
  "fallback_answer =
     lit ''I couldn't find relevant information in the document to answer your question. '' @
     lit ''Please try rephrasing or provide more context.''"

text \<open>
  \<open>queryResponse.matches.map(...)\<close>: reading \<open>match.metadata.pageContent\<close> of a match
  without metadata throws a TypeError (the message is the one of V8).
\<close>

definition read_pageContent_message :: jsstring where
  "read_pageContent_message = lit ''Cannot read properties of undefined (reading 'pageContent')''"

fun relevantDocs_of :: "'n match list \<Rightarrow> js_error + 'n document list" where
  "relevantDocs_of [] = Inr []"
| "relevantDocs_of (m # ms) =
     (case match_metadata m of
        None \<Rightarrow> Inl (Error read_pageContent_message)
      | Some md \<Rightarrow>
          (case relevantDocs_of ms of
             Inl e \<Rightarrow> Inl e
           | Inr ds \<Rightarrow> Inr (\<lparr>pageContent = stored_pageContent md, metadata = score m\<rparr> # ds)))"

text \<open>
  The prompt template, cut at its two placeholders \<open>{context}\<close> and \<open>{question}\<close>;
  formatting puts the two values in their places.
\<close>

definition prompt_head :: jsstring where
  "prompt_head =
     lit ''You are an intelligent assistant designed to provide answers based on the *provided context only*.'' @
     [LF] @ lit ''    '' @ [LF] @ lit ''        Carefully read the following context:'' @
     [LF] @ lit ''        ''"

definition prompt_middle :: jsstring where
  "prompt_middle =
     [LF] @ lit ''    '' @ [LF] @
     lit ''        Now, please answer the user's question. Answer the question as per the context, try to be intelligent and understand the question, if the information isn't available in the provided context, politely state that you don't have enough information from the document to answer.'' @
     [LF] @ lit ''        Question: ''"

definition prompt_tail :: jsstring where
  "prompt_tail =
     [LF] @ lit ''    '' @ [LF] @ lit ''        Answer:''"

definition contextualizedPrompt :: "jsstring \<Rightarrow> jsstring \<Rightarrow> jsstring" where
  "contextualizedPrompt context question =
     prompt_head @ context @ prompt_middle @ question @ prompt_tail"

text \<open>
  The body of the \<open>try\<close> block. \<open>ragChain.invoke(question)\<close> runs the retriever on the
  question, joins the page contents of its documents, formats the prompt and calls the
  model. Logging is left out.
\<close>

definition ask_try :: "('n, 'm) services \<Rightarrow> jsstring \<Rightarrow> (response, 'n) step" where
  "ask_try sv question =
     await (EmbedQuery question) (embedQuery sv question) (\<lambda>questionEmbedding.
       let q = \<lparr>vector = questionEmbedding, topK = 5, includeMetadata = True\<rparr> in
       await (Query q) (query sv q) (\<lambda>matches.
         case relevantDocs_of matches of
           Inl e \<Rightarrow> (Inl e, [])
         | Inr relevantDocs \<Rightarrow>
             if length relevantDocs = 0
             then (Inr \<lparr>status = 200, body = Json [(lit ''answer'', fallback_answer)]\<rparr>, [])
             else
               await (RetrieverInvoke question) (retriever_invoke sv question) (\<lambda>docsFromRetriever.
                 let mappedContents = map pageContent docsFromRetriever;
                     combinedContext = join [LF, LF] mappedContents;
                     prompt = contextualizedPrompt combinedContext question in
                 await (ModelInvoke prompt) (model_invoke sv prompt) (\<lambda>answer.
                   (Inr \<lparr>status = 200, body = Json [(lit ''answer'', answer)]\<rparr>, [])))))"

text \<open>
  The handler: \<open>question\<close> is the field of the parsed JSON body, absent or a string;
  \<open>!question\<close> holds when it is absent or the empty string.
\<close>

definition ask_question :: "('n, 'm) services \<Rightarrow> jsstring option \<Rightarrow> 'n outcome" where
  "ask_question sv question =
     (case question of
        None \<Rightarrow> \<lparr>response = \<lparr>status = 400, body = Text (lit ''Question is required.'')\<rparr>, calls = []\<rparr>
      | Some q \<Rightarrow>
          if q = []
          then \<lparr>response = \<lparr>status = 400, body = Text (lit ''Question is required.'')\<rparr>, calls = []\<rparr>
          else
            (case ask_try sv q of
               (Inr res, cs) \<Rightarrow> \<lparr>response = res, calls = cs\<rparr>
             | (Inl error, cs) \<Rightarrow>
                 \<lparr>response = \<lparr>status = 500,
                              body = Json [(lit ''error'',
                                            lit ''Error answering question: '' @ message error)]\<rparr>,
                  calls = cs\<rparr>))"

section \<open>The Text Chunker of the specification\<close>

text \<open>
  Modelled from the spec: the Text Chunker \<open>chunk(text, maxSize, overlap)\<close>. The source
  hands the cleaned text to \<open>RecursiveCharacterTextSplitter\<close> of LangChain, whose code is
  not part of the repository; above it is the collaborator \<open>createDocuments\<close>. The
  specification describes the chunker as follows: it walks the (normalized) text
  producing consecutive windows of up to \<open>maxSize\<close> characters, each window after the
  first beginning \<open>overlap\<close> characters before the end of the previous one; the final
  chunk may be shorter; a text of at most \<open>maxSize\<close> characters gives exactly one chunk;
  an empty text after cleanup signals \<open>NoContentExtracted\<close>. Its precondition is
  \<open>maxSize > overlap\<close>; where it is violated the walk does not advance, and \<open>windows\<close>
  stops with the rest of the text as its last window.
\<close>

datatype chunk_error = NoContentExtracted

function windows :: "nat \<Rightarrow> nat \<Rightarrow> jsstring \<Rightarrow> jsstring list" where
  "windows maxSize overlap text =
     (if length text \<le> maxSize \<or> maxSize \<le> overlap then [text]
      else take maxSize text # windows maxSize overlap (drop (maxSize - overlap) text))"
  by pat_completeness auto
termination
  by (relation "measure (\<lambda>(maxSize, overlap, text). length text)") auto

declare windows.simps [simp del]

definition chunk :: "jsstring \<Rightarrow> nat \<Rightarrow> nat \<Rightarrow> chunk_error + jsstring list" where
  "chunk text maxSize overlap =
     (if text = [] then Inl NoContentExtracted else Inr (windows maxSize overlap text))"

text \<open>
  Reassembling: the first chunk, followed by every later chunk without its first
  \<open>overlap\<close> characters, which repeat the end of the chunk before it.
\<close>

fun reassemble :: "nat \<Rightarrow> jsstring list \<Rightarrow> jsstring" where
  "reassemble overlap [] = []"
| "reassemble overlap (c # cs) = c @ concat (map (drop overlap) cs)"

section \<open>Auxiliary notions\<close>

text \<open>
  A cleaned text: its only whitespace is the space, and no two whitespace characters are
  adjacent.
\<close>

fun tidy :: "jsstring \<Rightarrow> bool" where
  "tidy [] = True"
| "tidy [c] = (is_whitespace c \<longrightarrow> c = SP)"
| "tidy (c # d # cs) = ((is_whitespace c \<longrightarrow> c = SP \<and> \<not> is_whitespace d) \<and> tidy (d # cs))"

text \<open>The texts stored with the matches of a query, in the order of the matches.\<close>

definition matched_texts :: "'n match list \<Rightarrow> jsstring list" where
  "matched_texts ms = map (\<lambda>m. case match_metadata m of None \<Rightarrow> [] | Some md \<Rightarrow> stored_pageContent md) ms"

text \<open>Whether a body is a JSON body.\<close>

fun is_json :: "body \<Rightarrow> bool" where
  "is_json (Json fs) = True"
| "is_json (Text m) = False"

text \<open>The identifiers written to the index by the calls of a request.\<close>

fun upserted_ids :: "'n call list \<Rightarrow> jsstring list" where
  "upserted_ids [] = []"
| "upserted_ids (Upsert rs # cs) = map req_id rs @ upserted_ids cs"
| "upserted_ids (c # cs) = upserted_ids cs"

text \<open>
  Collaborators for the examples: a PDF of one page, a splitter that makes one chunk of a
  short text and none of an empty one, embeddings of one number, an index that accepts
  every batch and answers every query with one match, a retriever that finds one document,
  a model that answers, and a clock that stands still during the request.
\<close>

definition example_services :: "(int, unit) services" where
  "example_services =
     \<lparr>extractBuffer = (\<lambda>b. Inr \<lparr>pages = Some [\<lparr>content = [\<lparr>str = lit ''Alpha''\<rparr>, \<lparr>str = lit ''beta''\<rparr>]\<rparr>]\<rparr>),
      createDocuments =
        (\<lambda>texts. Inr (map (\<lambda>t. \<lparr>pageContent = t, metadata = ()\<rparr>) (filter (\<lambda>t. t \<noteq> []) texts))),
      embedDocuments = (\<lambda>texts. Inr (map (\<lambda>t. [int (length t)]) texts)),
      upsert = (\<lambda>rs. Inr ()),
      embedQuery = (\<lambda>q. Inr [int (length q)]),
      query =
        (\<lambda>q. Inr [\<lparr>match_id = lit ''doc-1700000000000-0'', score = 1,
                    match_metadata = Some \<lparr>stored_pageContent = lit ''Alpha beta''\<rparr>\<rparr>]),
      retriever_invoke = (\<lambda>q. Inr [\<lparr>pageContent = lit ''Alpha beta'', metadata = ()\<rparr>]),
      model_invoke = (\<lambda>prompt. Inr (lit ''Beta.'')),
      date_now = (\<lambda>k. 1700000000000)\<rparr>"

text \<open>
  The same collaborators with a splitter that cuts the text \<open>Alpha beta\<close> into the two
  chunks \<open>Alpha\<close> and \<open>beta\<close>, and an index and a retriever that find both chunks.
\<close>

definition two_chunk_services :: "(int, unit) services" where
  "two_chunk_services =
     example_services
       \<lparr>createDocuments :=
          (\<lambda>texts. Inr (concat (map (\<lambda>t. if t = [] then []
                                          else [\<lparr>pageContent = take 5 t, metadata = ()\<rparr>,
                                                \<lparr>pageContent = drop 6 t, metadata = ()\<rparr>]) texts))),
        query :=
          (\<lambda>q. Inr [\<lparr>match_id = lit ''doc-1700000000000-0'', score = 2,
                      match_metadata = Some \<lparr>stored_pageContent = lit ''Alpha''\<rparr>\<rparr>,
                     \<lparr>match_id = lit ''doc-1700000000000-1'', score = 1,
                      match_metadata = Some \<lparr>stored_pageContent = lit ''beta''\<rparr>\<rparr>]),
        retriever_invoke :=
          (\<lambda>q. Inr [\<lparr>pageContent = lit ''Alpha'', metadata = ()\<rparr>,
                     \<lparr>pageContent = lit ''beta'', metadata = ()\<rparr>])\<rparr>"

section \<open>Properties of the text cleanup\<close>

lemma is_whitespace_SP: "is_whitespace SP"
  by (simp add: is_whitespace_def SP_def)

lemma is_whitespace_LF: "is_whitespace LF"
  by (simp add: is_whitespace_def LF_def)

lemma is_whitespace_CR: "is_whitespace CR"
  by (simp add: is_whitespace_def CR_def)

lemma collapse_head:
  "s = [] \<or> \<not> is_whitespace (hd s) \<Longrightarrow>
   collapse_whitespace s = [] \<or> \<not> is_whitespace (hd (collapse_whitespace s))"
  by (cases s) auto

lemma dropWhile_head: "dropWhile P s = [] \<or> \<not> P (hd (dropWhile P s))"
  by (metis hd_dropWhile)

lemma tidy_Cons:
  "tidy (c # cs) \<longleftrightarrow>
     (is_whitespace c \<longrightarrow> c = SP \<and> (cs = [] \<or> \<not> is_whitespace (hd cs))) \<and> tidy cs"
  by (cases cs) auto

lemma tidy_collapse: "tidy (collapse_whitespace s)"
proof (induction s rule: collapse_whitespace.induct)
  case 1
  show ?case by simp
next
  case (2 c cs)
  show ?case
  proof (cases "is_whitespace c")
    case True
    have "collapse_whitespace (dropWhile is_whitespace cs) = []
          \<or> \<not> is_whitespace (hd (collapse_whitespace (dropWhile is_whitespace cs)))"
      by (rule collapse_head) (rule dropWhile_head)
    with True 2 show ?thesis by (simp add: tidy_Cons)
  next
    case False
    with 2 show ?thesis by (simp add: tidy_Cons)
  qed
qed

lemma collapse_tidy: "tidy s \<Longrightarrow> collapse_whitespace s = s"
proof (induction s rule: collapse_whitespace.induct)
  case 1
  show ?case by simp
next
  case (2 c cs)
  show ?case
  proof (cases "is_whitespace c")
    case True
    with 2(3) have c: "c = SP" and h: "cs = [] \<or> \<not> is_whitespace (hd cs)" and t: "tidy cs"
      by (simp_all add: tidy_Cons)
    from h have d: "dropWhile is_whitespace cs = cs" by (cases cs) auto
    with 2(1) True t have "collapse_whitespace cs = cs" by simp
    with True c d show ?thesis by simp
  next
    case False
    with 2 show ?thesis by (simp add: tidy_Cons)
  qed
qed

lemma tidy_whitespace: "tidy s \<Longrightarrow> c \<in> set s \<Longrightarrow> is_whitespace c \<Longrightarrow> c = SP"
  by (induction s) (auto simp: tidy_Cons)

lemma replace_newlines_none:
  "LF \<notin> set s \<Longrightarrow> CR \<notin> set s \<Longrightarrow> replace_newlines s = s"
  by (induction s rule: replace_newlines.induct) auto

lemma replace_newlines_tidy: "tidy s \<Longrightarrow> replace_newlines s = s"
proof (rule replace_newlines_none)
  assume t: "tidy s"
  show "LF \<notin> set s"
    using tidy_whitespace [OF t, of LF] is_whitespace_LF by (auto simp: LF_def SP_def)
  show "CR \<notin> set s"
    using tidy_whitespace [OF t, of CR] is_whitespace_CR by (auto simp: CR_def SP_def)
qed

lemma tidy_append_right: "tidy (xs @ ys) \<Longrightarrow> tidy ys"
  by (induction xs) (auto simp: tidy_Cons)

lemma tidy_append_left: "tidy (xs @ ys) \<Longrightarrow> tidy xs"
proof (induction xs rule: tidy.induct)
  case 1
  show ?case by simp
next
  case (2 c)
  then show ?case by (cases ys) auto
next
  case (3 c d cs)
  then show ?case by simp
qed

lemma trim_decompose: "\<exists>p w. s = p @ trim s @ w"
proof -
  let ?v = "dropWhile is_whitespace s"
  have "s = takeWhile is_whitespace s @ ?v" by simp
  moreover have e: "rev ?v = takeWhile is_whitespace (rev ?v) @ dropWhile is_whitespace (rev ?v)"
    by simp
  from arg_cong [OF e, of rev]
  have "?v = trim s @ rev (takeWhile is_whitespace (rev ?v))"
    by (simp only: rev_rev_ident rev_append trim_def)
  ultimately have "s = takeWhile is_whitespace s @ trim s @ rev (takeWhile is_whitespace (rev ?v))"
    by (simp only:)
  then show ?thesis by blast
qed

lemma tidy_trim: "tidy s \<Longrightarrow> tidy (trim s)"
proof -
  assume t: "tidy s"
  obtain p w where "s = p @ trim s @ w" using trim_decompose by blast
  with t have "tidy (p @ trim s @ w)" by simp
  then show ?thesis using tidy_append_left tidy_append_right by blast
qed

lemma trim_head: "trim s = [] \<or> \<not> is_whitespace (hd (trim s))"
proof (cases "trim s = []")
  case True
  then show ?thesis by simp
next
  case False
  let ?v = "dropWhile is_whitespace s"
  let ?x = "dropWhile is_whitespace (rev ?v)"
  from False have x: "?x \<noteq> []" by (simp add: trim_def)
  have "rev ?v = takeWhile is_whitespace (rev ?v) @ ?x" by simp
  with x have "last (rev ?v) = last ?x" by (metis last_appendR)
  moreover from x have v: "?v \<noteq> []" by (metis dropWhile.simps(1) rev.simps(1))
  ultimately have "hd ?v = last ?x" by (simp add: last_rev)
  moreover have "hd (trim s) = last ?x" using x by (simp add: trim_def hd_rev)
  moreover from v have "\<not> is_whitespace (hd ?v)" by (metis hd_dropWhile)
  ultimately show ?thesis by simp
qed

lemma trim_idem: "trim (trim s) = trim s"
proof -
  have a: "dropWhile is_whitespace (trim s) = trim s"
    using trim_head [of s] by (cases "trim s") auto
  have "rev (trim s) = dropWhile is_whitespace (rev (dropWhile is_whitespace s))"
    by (simp add: trim_def)
  then have b: "dropWhile is_whitespace (rev (trim s)) = rev (trim s)"
    by (simp add: dropWhile_idem)
  show ?thesis
    unfolding trim_def [of "trim s"] a b by simp
qed

lemma tidy_normalize_text: "tidy (normalize_text s)"
  by (simp add: normalize_text_def tidy_trim replace_newlines_tidy tidy_collapse)

text \<open>
  C8: cleaning the text (every run of whitespace, newlines included, becomes one space,
  then the ends are trimmed) is idempotent: cleaning a cleaned text gives it back
  unchanged.
\<close>

theorem normalize_text_idempotent: "normalize_text (normalize_text s) = normalize_text s"
proof -
  have "collapse_whitespace (normalize_text s) = normalize_text s"
    by (rule collapse_tidy) (rule tidy_normalize_text)
  moreover have "replace_newlines (normalize_text s) = normalize_text s"
    by (rule replace_newlines_tidy) (rule tidy_normalize_text)
  moreover have "trim (normalize_text s) = normalize_text s"
    by (simp add: normalize_text_def trim_idem)
  ultimately show ?thesis
    by (simp add: normalize_text_def [of "normalize_text s"])
qed

section \<open>Properties of POST /ask-question\<close>

lemma await_Inr: "await c (Inr a) k = (fst (k a), c # snd (k a))"
  by (simp add: await_def split: prod.splits)

lemma relevantDocs_of_ok:
  "\<forall>m\<in>set ms. match_metadata m \<noteq> None \<Longrightarrow> \<exists>ds. relevantDocs_of ms = Inr ds \<and> length ds = length ms"
  by (induction ms) (auto split: option.splits sum.splits)

lemma relevantDocs_of_nonempty:
  "ms \<noteq> [] \<Longrightarrow> \<forall>m\<in>set ms. match_metadata m \<noteq> None \<Longrightarrow>
   \<exists>ds. relevantDocs_of ms = Inr ds \<and> ds \<noteq> []"
  using relevantDocs_of_ok [of ms] by fastforce

text \<open>
  C7, as the code has it: when the question is missing or the empty string, the endpoint
  answers 400 with the text \<open>Question is required.\<close> and calls no collaborator: no
  embedding, no vector query, no retrieval, no completion.
\<close>

theorem ask_blank_question:
  assumes "question = None \<or> question = Some []"
  shows "ask_question sv question =
           \<lparr>response = \<lparr>status = 400, body = Text (lit ''Question is required.'')\<rparr>, calls = []\<rparr>"
  using assms by (auto simp: ask_question_def)

text \<open>
  The empty question, at the example collaborators.
\<close>

theorem ask_blank_question_witness:
  "ask_question example_services (Some []) =
     \<lparr>response = \<lparr>status = 400, body = Text (lit ''Question is required.'')\<rparr>, calls = []\<rparr>"
  using ask_blank_question [of "Some []" example_services] by simp

text \<open>
  C7 as stated also covers a question made of whitespace only. The guard \<open>!question\<close>
  lets such a question through: a question of one space is embedded, queried, retrieved
  and completed, and the answer is 200.
\<close>

theorem ask_whitespace_question_counterexample:
  "trim [SP] = [] \<and>
   status (response (ask_question example_services (Some [SP]))) = 200 \<and>
   calls (ask_question example_services (Some [SP])) =
     [EmbedQuery [SP], Query \<lparr>vector = [1], topK = 5, includeMetadata = True\<rparr>,
      RetrieverInvoke [SP],
      ModelInvoke (contextualizedPrompt (lit ''Alpha beta'') [SP])]"
  by (simp add: ask_question_def ask_try_def await_Inr example_services_def trim_def
      is_whitespace_SP)

text \<open>
  C2: for a question that passes the guard, when the embedding succeeds and the query of the
  vector index returns no match, the endpoint answers 200 with the fixed fallback answer;
  the calls of the request are the embedding and the query, so the model is never called.
\<close>

theorem ask_no_matches:
  assumes "q \<noteq> []"
    and "embedQuery sv q = Inr v"
    and "query sv \<lparr>vector = v, topK = 5, includeMetadata = True\<rparr> = Inr []"
  shows "ask_question sv (Some q) =
           \<lparr>response = \<lparr>status = 200, body = Json [(lit ''answer'', fallback_answer)]\<rparr>,
            calls = [EmbedQuery q, Query \<lparr>vector = v, topK = 5, includeMetadata = True\<rparr>]\<rparr>
         \<and> (\<forall>prompt. ModelInvoke prompt \<notin> set (calls (ask_question sv (Some q))))"
  using assms by (simp add: ask_question_def ask_try_def await_Inr)

text \<open>
  The example collaborators with an index that finds nothing.
\<close>

theorem ask_no_matches_witness:
  "ask_question (example_services\<lparr>query := \<lambda>q. Inr []\<rparr>) (Some (lit ''Why?'')) =
     \<lparr>response = \<lparr>status = 200, body = Json [(lit ''answer'', fallback_answer)]\<rparr>,
      calls = [EmbedQuery (lit ''Why?''), Query \<lparr>vector = [4], topK = 5, includeMetadata = True\<rparr>]\<rparr>
   \<and> (\<forall>prompt. ModelInvoke prompt \<notin> set (calls
         (ask_question (example_services\<lparr>query := \<lambda>q. Inr []\<rparr>) (Some (lit ''Why?'')))))"
  using ask_no_matches [of "lit ''Why?''" "example_services\<lparr>query := \<lambda>q. Inr []\<rparr>" "[4]"]
  by (simp add: example_services_def lit_def)

lemma contextualizedPrompt_inject:
  "contextualizedPrompt c q = contextualizedPrompt c' q \<longleftrightarrow> c = c'"
  by (simp add: contextualizedPrompt_def)

text \<open>
  C1, as the code has it: when the direct query returns at least one match (each with its
  metadata), the chain calls the retriever, which runs a query of its own for the question,
  and the context is the page contents of the retriever's documents, in the order returned,
  joined by a blank line. The prompt passed to the model is the template with exactly this
  context and the literal question in its two places. The matches of the direct query are
  used for the check for no matches only; the context is the join of their texts whenever
  the retriever returns the same texts in the same order.
\<close>

theorem ask_context_from_retriever:
  assumes "q \<noteq> []"
    and "embedQuery sv q = Inr v"
    and "query sv \<lparr>vector = v, topK = 5, includeMetadata = True\<rparr> = Inr ms"
    and "ms \<noteq> []"
    and "\<forall>m\<in>set ms. match_metadata m \<noteq> None"
    and "retriever_invoke sv q = Inr ds"
  shows "calls (ask_question sv (Some q)) =
           [EmbedQuery q, Query \<lparr>vector = v, topK = 5, includeMetadata = True\<rparr>,
            RetrieverInvoke q,
            ModelInvoke (prompt_head @ join [LF, LF] (map pageContent ds) @ prompt_middle @ q @ prompt_tail)]
         \<and> (map pageContent ds = matched_texts ms \<longrightarrow>
              ModelInvoke (prompt_head @ join [LF, LF] (matched_texts ms) @ prompt_middle @ q @ prompt_tail)
                \<in> set (calls (ask_question sv (Some q))))"
proof -
  obtain rd where rd: "relevantDocs_of ms = Inr rd" "rd \<noteq> []"
    using relevantDocs_of_nonempty [OF assms(4) assms(5)] by blast
  have c: "calls (ask_question sv (Some q)) =
           [EmbedQuery q, Query \<lparr>vector = v, topK = 5, includeMetadata = True\<rparr>,
            RetrieverInvoke q,
            ModelInvoke (prompt_head @ join [LF, LF] (map pageContent ds) @ prompt_middle @ q @ prompt_tail)]"
    using assms(1,2,3,6) rd
    by (simp add: ask_question_def ask_try_def await_def contextualizedPrompt_def Let_def
        split: prod.splits sum.splits)
  show ?thesis
  proof (intro conjI impI)
    show "calls (ask_question sv (Some q)) =
           [EmbedQuery q, Query \<lparr>vector = v, topK = 5, includeMetadata = True\<rparr>,
            RetrieverInvoke q,
            ModelInvoke (prompt_head @ join [LF, LF] (map pageContent ds) @ prompt_middle @ q @ prompt_tail)]"
      by (rule c)
  next
    assume "map pageContent ds = matched_texts ms"
    then show "ModelInvoke (prompt_head @ join [LF, LF] (matched_texts ms) @ prompt_middle @ q @ prompt_tail)
                \<in> set (calls (ask_question sv (Some q)))"
      by (simp add: c)
  qed
qed

text \<open>
  Two matches and two documents of the retriever: the context is the two texts in the order
  returned, with a blank line between them.
\<close>

theorem ask_context_from_retriever_witness:
  "calls (ask_question two_chunk_services (Some (lit ''Why?''))) =
     [EmbedQuery (lit ''Why?''), Query \<lparr>vector = [4], topK = 5, includeMetadata = True\<rparr>,
      RetrieverInvoke (lit ''Why?''),
      ModelInvoke (prompt_head @ (lit ''Alpha'' @ [LF, LF] @ lit ''beta'') @ prompt_middle @
                   lit ''Why?'' @ prompt_tail)]
   \<and> ModelInvoke (prompt_head @ (lit ''Alpha'' @ [LF, LF] @ lit ''beta'') @ prompt_middle @
                   lit ''Why?'' @ prompt_tail)
         \<in> set (calls (ask_question two_chunk_services (Some (lit ''Why?''))))"
  using ask_context_from_retriever [of "lit ''Why?''" two_chunk_services "[4]"
      "[\<lparr>match_id = lit ''doc-1700000000000-0'', score = 2,
         match_metadata = Some \<lparr>stored_pageContent = lit ''Alpha''\<rparr>\<rparr>,
        \<lparr>match_id = lit ''doc-1700000000000-1'', score = 1,
         match_metadata = Some \<lparr>stored_pageContent = lit ''beta''\<rparr>\<rparr>]"
      "[\<lparr>pageContent = lit ''Alpha'', metadata = ()\<rparr>,
        \<lparr>pageContent = lit ''beta'', metadata = ()\<rparr>]"]
  by (simp add: two_chunk_services_def example_services_def lit_def matched_texts_def)

text \<open>
  C1 as stated takes the context from the matches of the direct query. When the retriever
  returns another text than the direct query (the index may change between the two
  queries), the prompt carries the retriever's text and not the text of the match.
\<close>

theorem ask_context_counterexample:
  "query (example_services\<lparr>retriever_invoke := \<lambda>q. Inr [\<lparr>pageContent = lit ''Gamma'', metadata = ()\<rparr>]\<rparr>)
     \<lparr>vector = [4], topK = 5, includeMetadata = True\<rparr> =
     Inr [\<lparr>match_id = lit ''doc-1700000000000-0'', score = 1,
           match_metadata = Some \<lparr>stored_pageContent = lit ''Alpha beta''\<rparr>\<rparr>]
   \<and> calls (ask_question
         (example_services\<lparr>retriever_invoke := \<lambda>q. Inr [\<lparr>pageContent = lit ''Gamma'', metadata = ()\<rparr>]\<rparr>)
         (Some (lit ''Why?''))) =
     [EmbedQuery (lit ''Why?''), Query \<lparr>vector = [4], topK = 5, includeMetadata = True\<rparr>,
      RetrieverInvoke (lit ''Why?''),
      ModelInvoke (contextualizedPrompt (lit ''Gamma'') (lit ''Why?''))]
   \<and> contextualizedPrompt (lit ''Gamma'') (lit ''Why?'') \<noteq>
       contextualizedPrompt (join [LF, LF] [lit ''Alpha beta'']) (lit ''Why?'')"
proof (intro conjI)
  show "contextualizedPrompt (lit ''Gamma'') (lit ''Why?'') \<noteq>
       contextualizedPrompt (join [LF, LF] [lit ''Alpha beta'']) (lit ''Why?'')"
    by (simp add: contextualizedPrompt_inject lit_def)
qed (simp_all add: ask_question_def ask_try_def await_def Let_def example_services_def lit_def)

section \<open>Properties of POST /upload-document\<close>

lemma make_upsertRequests_length: "length (make_upsertRequests now docs) = length docs"
  by (simp add: make_upsertRequests_def)

lemma make_upsertRequests_nth:
  "i < length docs \<Longrightarrow>
   make_upsertRequests now docs ! i =
     \<lparr>req_id = lit ''doc-'' @ toString_nat (now i) @ lit ''-'' @ toString_nat i,
      req_values = [],
      req_metadata = \<lparr>stored_pageContent = pageContent (docs ! i)\<rparr>\<rparr>"
  by (simp add: make_upsertRequests_def nth_enumerate_eq)

lemma assign_values_ok:
  "index + length es \<le> length rs \<Longrightarrow>
   \<exists>rs'. assign_values rs es index = Inr rs' \<and> length rs' = length rs \<and>
     (\<forall>i<length rs. rs' ! i =
        (if index \<le> i \<and> i < index + length es
         then (rs ! i)\<lparr>req_values := es ! (i - index)\<rparr> else rs ! i))"
proof (induction es arbitrary: rs index)
  case Nil
  then show ?case by auto
next
  case (Cons e es)
  let ?rs = "rs[index := (rs ! index)\<lparr>req_values := e\<rparr>]"
  from Cons.prems have lt: "index < length rs" and le: "Suc index + length es \<le> length ?rs"
    by simp_all
  from Cons.IH [OF le] obtain rs' where
    a: "assign_values ?rs es (Suc index) = Inr rs'" and l: "length rs' = length rs" and
    n: "\<forall>i<length rs. rs' ! i =
        (if Suc index \<le> i \<and> i < Suc index + length es
         then (?rs ! i)\<lparr>req_values := es ! (i - Suc index)\<rparr> else ?rs ! i)"
    by auto
  have "\<forall>i<length rs. rs' ! i =
        (if index \<le> i \<and> i < index + length (e # es)
         then (rs ! i)\<lparr>req_values := (e # es) ! (i - index)\<rparr> else rs ! i)"
  proof (intro allI impI)
    fix i assume i: "i < length rs"
    show "rs' ! i =
        (if index \<le> i \<and> i < index + length (e # es)
         then (rs ! i)\<lparr>req_values := (e # es) ! (i - index)\<rparr> else rs ! i)"
    proof (cases "i = index")
      case True
      with n i lt show ?thesis by simp
    next
      case False
      with n i lt show ?thesis by (auto simp: nth_Cons' Suc_diff_le)
    qed
  qed
  with a l lt show ?case by simp
qed

lemma assign_values_fail:
  "length rs < index + length es \<Longrightarrow> index \<le> length rs \<Longrightarrow>
   assign_values rs es index = Inl (Error set_values_message)"
  by (induction es arbitrary: rs index) auto

lemma digit_eq_iff: "d < 10 \<Longrightarrow> d' < 10 \<Longrightarrow> digit d = digit d' \<longleftrightarrow> d = d'"
  by (simp add: digit_def word_of_nat_eq_iff take_bit_nat_eq_self)

lemma unat_digit: "d < 10 \<Longrightarrow> unat (digit d) = 48 + d"
  by (simp only: digit_def unat_of_nat) (simp add: take_bit_nat_eq_self)

lemma digit_not_dash: "d < 10 \<Longrightarrow> digit d \<noteq> 0x2D"
proof
  assume d: "d < 10" and "digit d = 0x2D"
  then have "unat (digit d) = 45" by simp
  with d show False by (simp add: unat_digit)
qed

lemma toString_nat_not_Nil: "toString_nat n \<noteq> []"
  by (subst toString_nat.simps) simp

lemma toString_nat_digits: "c \<in> set (toString_nat n) \<Longrightarrow> \<exists>d<10. c = digit d"
proof (induction n rule: toString_nat.induct)
  case (1 n)
  show ?case
  proof (cases "n < 10")
    case True
    with 1(2) show ?thesis by (subst (asm) toString_nat.simps) auto
  next
    case False
    from 1(2) have "c \<in> set (toString_nat (n div 10)) \<or> c = digit (n mod 10)"
      using False by (subst (asm) toString_nat.simps) auto
    then show ?thesis
    proof
      assume "c \<in> set (toString_nat (n div 10))"
      with 1(1) False show ?thesis by simp
    next
      assume "c = digit (n mod 10)"
      moreover have "n mod 10 < 10" by simp
      ultimately show ?thesis by blast
    qed
  qed
qed

lemma toString_nat_no_dash: "0x2D \<notin> set (toString_nat n)"
  using toString_nat_digits [of "0x2D" n] digit_not_dash by metis

lemma toString_nat_inject: "toString_nat n = toString_nat m \<Longrightarrow> n = m"
proof (induction n arbitrary: m rule: toString_nat.induct)
  case (1 n)
  show ?case
  proof (cases "n < 10")
    case n: True
    show ?thesis
    proof (cases "m < 10")
      case True
      with n 1(2) show ?thesis
        by (simp add: toString_nat.simps [of n] toString_nat.simps [of m] digit_eq_iff)
    next
      case False
      with n 1(2) have "[digit n] = toString_nat (m div 10) @ [digit (m mod 10)]"
        by (simp add: toString_nat.simps [of n] toString_nat.simps [of m])
      then show ?thesis using toString_nat_not_Nil [of "m div 10"] by simp
    qed
  next
    case n: False
    show ?thesis
    proof (cases "m < 10")
      case True
      with n 1(2) have "toString_nat (n div 10) @ [digit (n mod 10)] = [digit m]"
        by (simp add: toString_nat.simps [of n] toString_nat.simps [of m])
      then show ?thesis using toString_nat_not_Nil [of "n div 10"] by simp
    next
      case False
      with n 1(2) have "toString_nat (n div 10) @ [digit (n mod 10)] =
                        toString_nat (m div 10) @ [digit (m mod 10)]"
        by (simp add: toString_nat.simps [of n] toString_nat.simps [of m])
      then have a: "toString_nat (n div 10) = toString_nat (m div 10)"
        and b: "digit (n mod 10) = digit (m mod 10)" by simp_all
      from 1(1) [OF n a] have "n div 10 = m div 10" .
      moreover from b have "n mod 10 = m mod 10" by (simp add: digit_eq_iff)
      ultimately show ?thesis by (metis div_mult_mod_eq)
    qed
  qed
qed

lemma lit_dash: "lit ''-'' = [0x2D]"
  by (simp add: lit_def)

lemma doc_id_eq_iff:
  "lit ''doc-'' @ toString_nat t @ lit ''-'' @ toString_nat i =
   lit ''doc-'' @ toString_nat t' @ lit ''-'' @ toString_nat j \<longleftrightarrow> t = t' \<and> i = j"
proof -
  have "toString_nat t @ 0x2D # toString_nat i = toString_nat t' @ 0x2D # toString_nat j
        \<longleftrightarrow> toString_nat t = toString_nat t' \<and> toString_nat i = toString_nat j"
    by (rule append_Cons_eq_iff) (rule toString_nat_no_dash)+
  then show ?thesis
    using toString_nat_inject by (auto simp: lit_dash)
qed

lemma assign_values_ids:
  "assign_values rs es index = Inr rs' \<Longrightarrow> map req_id rs' = map req_id rs"
proof (induction es arbitrary: rs index)
  case Nil
  then show ?case by simp
next
  case (Cons e es)
  from Cons.prems have lt: "index < length rs" by (simp split: if_splits)
  with Cons.prems have "assign_values (rs[index := (rs ! index)\<lparr>req_values := e\<rparr>]) es (Suc index) = Inr rs'"
    by simp
  from Cons.IH [OF this] have "map req_id rs' = map req_id (rs[index := (rs ! index)\<lparr>req_values := e\<rparr>])" .
  also have "\<dots> = (map req_id rs)[index := req_id (rs ! index)]"
    by (simp add: map_update)
  also have "\<dots> = map req_id rs"
    using lt by (simp add: list_update_same_conv)
  finally show ?case .
qed

lemma make_upsertRequests_ids:
  "map req_id (make_upsertRequests now docs) =
   map (\<lambda>i. lit ''doc-'' @ toString_nat (now i) @ lit ''-'' @ toString_nat i) [0..<length docs]"
  by (rule nth_equalityI) (simp_all add: make_upsertRequests_length make_upsertRequests_nth)

lemma make_upsertRequests_distinct: "distinct (map req_id (make_upsertRequests now docs))"
proof -
  have "inj_on (\<lambda>i. lit ''doc-'' @ toString_nat (now i) @ lit ''-'' @ toString_nat i)
          (set [0..<length docs])"
    by (rule inj_onI) (simp only: doc_id_eq_iff)
  then show ?thesis
    by (simp only: make_upsertRequests_ids distinct_map distinct_upt simp_thms)
qed

lemma upload_calls:
  assumes "extractBuffer sv (buffer f) = Inr data"
    and "extracted_text data = Inr fullText"
    and "createDocuments sv [normalize_text fullText] = Inr docs"
    and "embedDocuments sv (map pageContent docs) = Inr es"
    and "assign_values (make_upsertRequests (date_now sv) docs) es 0 = Inr rs"
  shows "calls (upload_document sv (Some f)) =
           [ExtractBuffer (buffer f), CreateDocuments [normalize_text fullText],
            EmbedDocuments (map pageContent docs), Upsert rs]"
  using assms
  by (simp add: upload_document_def upload_try_def await_def Let_def split: sum.splits prod.splits)

lemma upload_upserted_ids:
  "\<exists>n. upserted_ids (calls (upload_document sv file)) =
     map (\<lambda>i. lit ''doc-'' @ toString_nat (date_now sv i) @ lit ''-'' @ toString_nat i) [0..<n]"
proof (cases "file")
  case None
  then have "upserted_ids (calls (upload_document sv file)) = []"
    by (simp add: upload_document_def)
  then show ?thesis by (intro exI [of _ 0]) simp
next
  case (Some f)
  show ?thesis
  proof (cases "\<exists>data fullText docs es rs. extractBuffer sv (buffer f) = Inr data \<and>
      extracted_text data = Inr fullText \<and> createDocuments sv [normalize_text fullText] = Inr docs \<and>
      embedDocuments sv (map pageContent docs) = Inr es \<and>
      assign_values (make_upsertRequests (date_now sv) docs) es 0 = Inr rs")
    case True
    then obtain data fullText docs es rs where h: "extractBuffer sv (buffer f) = Inr data"
      "extracted_text data = Inr fullText" "createDocuments sv [normalize_text fullText] = Inr docs"
      "embedDocuments sv (map pageContent docs) = Inr es"
      "assign_values (make_upsertRequests (date_now sv) docs) es 0 = Inr rs"
      by blast
    from upload_calls [OF h] have "upserted_ids (calls (upload_document sv (Some f))) = map req_id rs"
      by simp
    then have "upserted_ids (calls (upload_document sv (Some f))) =
        map (\<lambda>i. lit ''doc-'' @ toString_nat (date_now sv i) @ lit ''-'' @ toString_nat i)
          [0..<length docs]"
      by (simp only: assign_values_ids [OF h(5)] make_upsertRequests_ids)
    with Some show ?thesis by blast
  next
    case False
    then have "upserted_ids (calls (upload_document sv (Some f))) = []"
      by (auto simp: upload_document_def upload_try_def await_def Let_def
          split: sum.splits prod.splits)
    with Some show ?thesis by (intro exI [of _ 0]) simp
  qed
qed

lemma example_text: "normalize_text (lit ''Alpha beta'') = lit ''Alpha beta''"
  by (simp add: normalize_text_def trim_def lit_def is_whitespace_def SP_def LF_def CR_def)

text \<open>
  C10: when the extraction fails (the extractor throws, or it returns no pages and the
  handler throws), or the splitter throws, or the batch embedding call throws, with error
  \<open>e\<close>, the endpoint answers 500 with the message of \<open>e\<close> after
  \<open>Error processing document: \<close>, and the request makes no upsert call.
\<close>

theorem upload_failure_no_upsert:
  assumes "extractBuffer sv (buffer f) = Inl e
     \<or> (\<exists>data. extractBuffer sv (buffer f) = Inr data \<and> extracted_text data = Inl e)
     \<or> (\<exists>data fullText. extractBuffer sv (buffer f) = Inr data \<and>
          extracted_text data = Inr fullText \<and>
          createDocuments sv [normalize_text fullText] = Inl e)
     \<or> (\<exists>data fullText docs. extractBuffer sv (buffer f) = Inr data \<and>
          extracted_text data = Inr fullText \<and>
          createDocuments sv [normalize_text fullText] = Inr docs \<and>
          embedDocuments sv (map pageContent docs) = Inl e)"
  shows "response (upload_document sv (Some f)) =
           \<lparr>status = 500,
            body = Json [(lit ''error'', lit ''Error processing document: '' @ message e)]\<rparr>
         \<and> (\<forall>rs. Upsert rs \<notin> set (calls (upload_document sv (Some f))))"
  using assms
  by (elim disjE exE conjE)
     (simp_all add: upload_document_def upload_try_def await_def Let_def)

text \<open>
  The example collaborators with an embedding model that throws.
\<close>

theorem upload_failure_no_upsert_witness:
  "response (upload_document
      (example_services\<lparr>embedDocuments := \<lambda>texts. Inl (Error (lit ''quota exceeded''))\<rparr>)
      (Some \<lparr>buffer = []\<rparr>)) =
     \<lparr>status = 500,
      body = Json [(lit ''error'', lit ''Error processing document: '' @ lit ''quota exceeded'')]\<rparr>
   \<and> (\<forall>rs. Upsert rs \<notin> set (calls (upload_document
      (example_services\<lparr>embedDocuments := \<lambda>texts. Inl (Error (lit ''quota exceeded''))\<rparr>)
      (Some \<lparr>buffer = []\<rparr>))))"
  using upload_failure_no_upsert
    [of "example_services\<lparr>embedDocuments := \<lambda>texts. Inl (Error (lit ''quota exceeded''))\<rparr>"
        "\<lparr>buffer = []\<rparr>" "Error (lit ''quota exceeded'')"]
  by (simp add: example_services_def extracted_text_def)

text \<open>
  C6: in an ingestion whose extraction, splitting and embedding return, the values of the
  upserted entry \<open>i\<close> are the \<open>i\<close>-th embedding returned, and its metadata holds the
  \<open>i\<close>-th text submitted to the embedding call, for every returned embedding. (When
  more embeddings than chunks come back the assignment throws and nothing is upserted.)
\<close>

theorem embeddings_positional:
  assumes "extractBuffer sv (buffer f) = Inr data"
    and "extracted_text data = Inr fullText"
    and "createDocuments sv [normalize_text fullText] = Inr docs"
    and "embedDocuments sv (map pageContent docs) = Inr es"
  shows "(length es \<le> length docs \<longrightarrow>
           (\<exists>rs. calls (upload_document sv (Some f)) =
                   [ExtractBuffer (buffer f), CreateDocuments [normalize_text fullText],
                    EmbedDocuments (map pageContent docs), Upsert rs]
                 \<and> length rs = length docs
                 \<and> (\<forall>i<length es. req_values (rs ! i) = es ! i \<and>
                       stored_pageContent (req_metadata (rs ! i)) = map pageContent docs ! i)))
       \<and> (length docs < length es \<longrightarrow>
            calls (upload_document sv (Some f)) =
              [ExtractBuffer (buffer f), CreateDocuments [normalize_text fullText],
               EmbedDocuments (map pageContent docs)])"
proof (intro conjI impI)
  assume le: "length es \<le> length docs"
  let ?rs = "make_upsertRequests (date_now sv) docs :: 'a upsert_request list"
  from le have "0 + length es \<le> length ?rs" by (simp add: make_upsertRequests_length)
  from assign_values_ok [OF this] obtain rs where
    a: "assign_values ?rs es 0 = Inr rs" and l: "length rs = length ?rs" and
    n: "\<forall>i<length ?rs. rs ! i =
        (if 0 \<le> i \<and> i < 0 + length es then (?rs ! i)\<lparr>req_values := es ! (i - 0)\<rparr> else ?rs ! i)"
    by blast
  have "\<forall>i<length es. req_values (rs ! i) = es ! i \<and>
          stored_pageContent (req_metadata (rs ! i)) = map pageContent docs ! i"
    using n le by (simp add: make_upsertRequests_length make_upsertRequests_nth)
  with upload_calls [OF assms a] l
  show "\<exists>rs. calls (upload_document sv (Some f)) =
                   [ExtractBuffer (buffer f), CreateDocuments [normalize_text fullText],
                    EmbedDocuments (map pageContent docs), Upsert rs]
                 \<and> length rs = length docs
                 \<and> (\<forall>i<length es. req_values (rs ! i) = es ! i \<and>
                       stored_pageContent (req_metadata (rs ! i)) = map pageContent docs ! i)"
    by (auto simp: make_upsertRequests_length)
next
  assume "length docs < length es"
  then have "assign_values (make_upsertRequests (date_now sv) docs) es 0 = Inl (Error set_values_message)"
    by (intro assign_values_fail) (simp_all add: make_upsertRequests_length)
  with assms show "calls (upload_document sv (Some f)) =
              [ExtractBuffer (buffer f), CreateDocuments [normalize_text fullText],
               EmbedDocuments (map pageContent docs)]"
    by (simp add: upload_document_def upload_try_def await_def Let_def)
qed

text \<open>
  Two chunks with different embeddings: the first entry holds the first text and the first
  embedding, the second entry the second text and the second embedding.
\<close>

theorem embeddings_positional_witness:
  "\<exists>rs. calls (upload_document two_chunk_services (Some \<lparr>buffer = []\<rparr>)) =
          [ExtractBuffer [], CreateDocuments [lit ''Alpha beta''],
           EmbedDocuments [lit ''Alpha'', lit ''beta''], Upsert rs]
        \<and> length rs = 2
        \<and> req_values (rs ! 0) = [5] \<and> stored_pageContent (req_metadata (rs ! 0)) = lit ''Alpha''
        \<and> req_values (rs ! 1) = [4] \<and> stored_pageContent (req_metadata (rs ! 1)) = lit ''beta''"
proof -
  let ?data = "\<lparr>pages = Some [\<lparr>content = [\<lparr>str = lit ''Alpha''\<rparr>, \<lparr>str = lit ''beta''\<rparr>]\<rparr>]\<rparr>"
  let ?docs = "[\<lparr>pageContent = lit ''Alpha'', metadata = ()\<rparr>,
                \<lparr>pageContent = lit ''beta'', metadata = ()\<rparr>]"
  let ?es = "[[5], [4 :: int]]"
  have h1: "extractBuffer two_chunk_services (buffer \<lparr>buffer = []\<rparr>) = Inr ?data"
    by (simp add: two_chunk_services_def example_services_def)
  have h2: "extracted_text ?data = Inr (lit ''Alpha beta'')"
    by (simp add: extracted_text_def page_text_def lit_def)
  have h3: "createDocuments two_chunk_services [normalize_text (lit ''Alpha beta'')] = Inr ?docs"
    by (simp add: example_text two_chunk_services_def example_services_def) (simp add: lit_def)
  have h4: "embedDocuments two_chunk_services (map pageContent ?docs) = Inr ?es"
    by (simp add: two_chunk_services_def example_services_def lit_def)
  have le: "length ?es \<le> length ?docs"
    by simp
  from embeddings_positional [OF h1 h2 h3 h4] le obtain rs where
    c: "calls (upload_document two_chunk_services (Some \<lparr>buffer = []\<rparr>)) =
          [ExtractBuffer (buffer \<lparr>buffer = []\<rparr>), CreateDocuments [normalize_text (lit ''Alpha beta'')],
           EmbedDocuments (map pageContent ?docs), Upsert rs]"
    and l: "length rs = length ?docs"
    and n: "\<forall>i<length ?es. req_values (rs ! i) = ?es ! i \<and>
              stored_pageContent (req_metadata (rs ! i)) = map pageContent ?docs ! i"
    by blast
  from n have n0: "req_values (rs ! 0) = [5] \<and> stored_pageContent (req_metadata (rs ! 0)) = lit ''Alpha''"
    by (elim allE [of _ 0]) simp
  from n have n1: "req_values (rs ! 1) = [4] \<and> stored_pageContent (req_metadata (rs ! 1)) = lit ''beta''"
    by (elim allE [of _ 1]) simp
  from c have c': "calls (upload_document two_chunk_services (Some \<lparr>buffer = []\<rparr>)) =
          [ExtractBuffer [], CreateDocuments [lit ''Alpha beta''],
           EmbedDocuments [lit ''Alpha'', lit ''beta''], Upsert rs]"
    by (simp add: example_text)
  from l have "length rs = 2" by simp
  with c' n0 n1 show ?thesis by blast
qed

lemma upsert_entries_in_batch:
  assumes "extractBuffer sv (buffer f) = Inr data"
    and "extracted_text data = Inr fullText"
    and "createDocuments sv [normalize_text fullText] = Inr docs"
    and "embedDocuments sv (map pageContent docs) = Inr es"
    and "length es \<le> length docs"
  shows "\<exists>rs. calls (upload_document sv (Some f)) =
                [ExtractBuffer (buffer f), CreateDocuments [normalize_text fullText],
                 EmbedDocuments (map pageContent docs), Upsert rs]
              \<and> length rs = length docs
              \<and> (\<forall>i<length docs. req_metadata (rs ! i) = \<lparr>stored_pageContent = pageContent (docs ! i)\<rparr>)
              \<and> distinct (map req_id rs)"
proof -
  let ?rs = "make_upsertRequests (date_now sv) docs :: 'a upsert_request list"
  from assms(5) have "0 + length es \<le> length ?rs" by (simp add: make_upsertRequests_length)
  from assign_values_ok [OF this] obtain rs where
    a: "assign_values ?rs es 0 = Inr rs" and l: "length rs = length ?rs" and
    n: "\<forall>i<length ?rs. rs ! i =
        (if 0 \<le> i \<and> i < 0 + length es then (?rs ! i)\<lparr>req_values := es ! (i - 0)\<rparr> else ?rs ! i)"
    by blast
  have m: "\<forall>i<length docs. req_metadata (rs ! i) = \<lparr>stored_pageContent = pageContent (docs ! i)\<rparr>"
    using n by (simp add: make_upsertRequests_length make_upsertRequests_nth)
  have d: "distinct (map req_id rs)"
    by (simp only: assign_values_ids [OF a] make_upsertRequests_distinct)
  from upload_calls [OF assms(1-4) a] l m d show ?thesis
    by (simp add: make_upsertRequests_length)
qed

text \<open>
  C4 on the code: the identifier of an entry is built from \<open>Date.now()\<close> and the index
  of the chunk only. Within a batch the index keeps the identifiers apart (the lemma above).
  Two ingestions of different documents that read the same millisecond collide: the first
  upserts two entries, the second one entry, and the identifier of the second's entry is
  the identifier of the first entry of the first.
\<close>

theorem colliding_ids:
  "upserted_ids (calls (upload_document two_chunk_services (Some \<lparr>buffer = [1]\<rparr>))) =
     [lit ''doc-1700000000000-0'', lit ''doc-1700000000000-1'']
   \<and> upserted_ids (calls (upload_document
        (example_services\<lparr>extractBuffer :=
           \<lambda>b. Inr \<lparr>pages = Some [\<lparr>content = [\<lparr>str = lit ''Gamma''\<rparr>]\<rparr>]\<rparr>\<rparr>)
        (Some \<lparr>buffer = [2]\<rparr>))) =
     [lit ''doc-1700000000000-0'']"
  by (simp add: upload_document_def upload_try_def await_def Let_def two_chunk_services_def
      example_services_def
      extracted_text_def page_text_def make_upsertRequests_def normalize_text_def trim_def
      is_whitespace_def SP_def LF_def CR_def toString_nat.simps digit_def lit_def)

text \<open>
  C3 on the code: a PDF of one page without text items has the cleaned text \<open>""\<close>.
  The handler throws only when there are no pages; here it hands the empty text to the
  splitter, embeds the empty list of chunks and upserts the empty batch. With an index that
  accepts the empty batch the answer is 200; with an index that rejects it the answer is
  500 with the error of the index, after the splitter and the embedding model were called.
\<close>

theorem empty_text_indexed:
  "normalize_text [] = []
   \<and> upload_document
       (example_services\<lparr>extractBuffer := \<lambda>b. Inr \<lparr>pages = Some [\<lparr>content = []\<rparr>]\<rparr>\<rparr>)
       (Some \<lparr>buffer = []\<rparr>) =
     \<lparr>response = \<lparr>status = 200,
                  body = Json [(lit ''message'', lit ''Document processed and indexed successfully.'')]\<rparr>,
      calls = [ExtractBuffer [], CreateDocuments [[]], EmbedDocuments [], Upsert []]\<rparr>
   \<and> upload_document
       (example_services\<lparr>extractBuffer := \<lambda>b. Inr \<lparr>pages = Some [\<lparr>content = []\<rparr>]\<rparr>,
                         upsert := \<lambda>rs. if rs = [] then Inl (Error (lit ''no records'')) else Inr ()\<rparr>)
       (Some \<lparr>buffer = []\<rparr>) =
     \<lparr>response = \<lparr>status = 500,
                  body = Json [(lit ''error'', lit ''Error processing document: '' @ lit ''no records'')]\<rparr>,
      calls = [ExtractBuffer [], CreateDocuments [[]], EmbedDocuments [], Upsert []]\<rparr>"
proof -
  have n: "normalize_text [] = []"
    by (simp add: normalize_text_def trim_def)
  show ?thesis
    by (simp add: n upload_document_def upload_try_def await_def Let_def example_services_def
        extracted_text_def page_text_def make_upsertRequests_def)
qed

section \<open>The shape of the responses\<close>

text \<open>
  C9, as the code has it, for the responses that the three route handlers write (the
  handler of \<open>/upload-document\<close> runs once \<open>upload.single\<close> has passed the request
  on, the handler of \<open>/ask-question\<close> once \<open>express.json\<close> has parsed the body; what
  the middleware or the framework answers when they refuse a request is not covered):
  every such response has a status and a message. The responses 200 and 500 are JSON
  objects with one field (\<open>message\<close>, \<open>answer\<close> or \<open>error\<close>); the two responses 400,
  for a missing document and for a missing or empty question, are plain text bodies with
  the message, sent by \<open>res.send\<close>.
\<close>

theorem responses_shape:
  "root = \<lparr>status = 200, body = Json [(lit ''message'', lit ''Backend running successfully!'')]\<rparr>
   \<and> ((file = None \<and>
        response (upload_document sv file) = \<lparr>status = 400, body = Text (lit ''No document uploaded.'')\<rparr>)
      \<or> response (upload_document sv file) =
          \<lparr>status = 200, body = Json [(lit ''message'', lit ''Document processed and indexed successfully.'')]\<rparr>
      \<or> (\<exists>e. response (upload_document sv file) =
          \<lparr>status = 500, body = Json [(lit ''error'', lit ''Error processing document: '' @ message e)]\<rparr>))
   \<and> ((question \<in> {None, Some []} \<and>
        response (ask_question sv question) = \<lparr>status = 400, body = Text (lit ''Question is required.'')\<rparr>)
      \<or> (\<exists>answer. response (ask_question sv question) =
          \<lparr>status = 200, body = Json [(lit ''answer'', answer)]\<rparr>)
      \<or> (\<exists>e. response (ask_question sv question) =
          \<lparr>status = 500, body = Json [(lit ''error'', lit ''Error answering question: '' @ message e)]\<rparr>))"
proof (intro conjI)
  show "root = \<lparr>status = 200, body = Json [(lit ''message'', lit ''Backend running successfully!'')]\<rparr>"
    by (simp add: root_def)
next
  show "(file = None \<and>
        response (upload_document sv file) = \<lparr>status = 400, body = Text (lit ''No document uploaded.'')\<rparr>)
      \<or> response (upload_document sv file) =
          \<lparr>status = 200, body = Json [(lit ''message'', lit ''Document processed and indexed successfully.'')]\<rparr>
      \<or> (\<exists>e. response (upload_document sv file) =
          \<lparr>status = 500, body = Json [(lit ''error'', lit ''Error processing document: '' @ message e)]\<rparr>)"
  proof (cases "file")
    case None
    then show ?thesis by (simp add: upload_document_def)
  next
    case (Some f)
    obtain r cs where t: "upload_try sv (buffer f) = (r, cs)" by (cases "upload_try sv (buffer f)")
    show ?thesis
    proof (cases r)
      case (Inl e)
      with Some t show ?thesis by (auto simp: upload_document_def)
    next
      case (Inr res)
      with t have "res = \<lparr>status = 200, body = Json [(lit ''message'', lit ''Document processed and indexed successfully.'')]\<rparr>"
        by (auto simp: upload_try_def await_def Let_def split: sum.splits prod.splits)
      with Some t Inr show ?thesis by (simp add: upload_document_def)
    qed
  qed
next
  show "(question \<in> {None, Some []} \<and>
        response (ask_question sv question) = \<lparr>status = 400, body = Text (lit ''Question is required.'')\<rparr>)
      \<or> (\<exists>answer. response (ask_question sv question) =
          \<lparr>status = 200, body = Json [(lit ''answer'', answer)]\<rparr>)
      \<or> (\<exists>e. response (ask_question sv question) =
          \<lparr>status = 500, body = Json [(lit ''error'', lit ''Error answering question: '' @ message e)]\<rparr>)"
  proof (cases "question \<in> {None, Some []}")
    case True
    then show ?thesis by (auto simp: ask_question_def)
  next
    case False
    then obtain q where q: "question = Some q" "q \<noteq> []" by (cases question) auto
    obtain r cs where t: "ask_try sv q = (r, cs)" by (cases "ask_try sv q")
    show ?thesis
    proof (cases r)
      case (Inl e)
      with q t show ?thesis by (auto simp: ask_question_def)
    next
      case (Inr res)
      with t have "\<exists>answer. res = \<lparr>status = 200, body = Json [(lit ''answer'', answer)]\<rparr>"
        by (auto simp: ask_try_def await_def Let_def split: sum.splits prod.splits if_splits)
      with q t Inr show ?thesis by (auto simp: ask_question_def)
    qed
  qed
qed

text \<open>
  C9 as stated makes every body a JSON body: the two 400 responses of the handlers are not.
\<close>

theorem missing_document_counterexample:
  "response (upload_document example_services None) =
     \<lparr>status = 400, body = Text (lit ''No document uploaded.'')\<rparr>
   \<and> is_json (body (response (upload_document example_services None))) = False
   \<and> response (ask_question example_services (Some [])) =
     \<lparr>status = 400, body = Text (lit ''Question is required.'')\<rparr>
   \<and> is_json (body (response (ask_question example_services (Some [])))) = False"
  by (simp add: upload_document_def ask_question_def)

section \<open>Properties of the Text Chunker of the specification\<close>

lemma windows_lengths:
  "overlap < maxSize \<Longrightarrow> c \<in> set (windows maxSize overlap s) \<Longrightarrow> length c \<le> maxSize"
proof (induction maxSize overlap s rule: windows.induct)
  case (1 maxSize overlap s)
  show ?case
  proof (cases "length s \<le> maxSize \<or> maxSize \<le> overlap")
    case True
    with 1(3) have "c = s" by (subst (asm) windows.simps) simp
    with True 1(2) show ?thesis by simp
  next
    case False
    with 1(3) have "c = take maxSize s \<or> c \<in> set (windows maxSize overlap (drop (maxSize - overlap) s))"
      by (subst (asm) windows.simps) simp
    then show ?thesis
    proof
      assume "c = take maxSize s"
      then show ?thesis by simp
    next
      assume "c \<in> set (windows maxSize overlap (drop (maxSize - overlap) s))"
      with 1(1) [OF False 1(2)] show ?thesis .
    qed
  qed
qed

lemma windows_drop:
  "overlap < maxSize \<Longrightarrow> overlap \<le> length s \<Longrightarrow>
   concat (map (drop overlap) (windows maxSize overlap s)) = drop overlap s"
proof (induction maxSize overlap s rule: windows.induct)
  case (1 maxSize overlap s)
  show ?case
  proof (cases "length s \<le> maxSize \<or> maxSize \<le> overlap")
    case True
    then show ?thesis by (subst windows.simps) simp
  next
    case False
    let ?rest = "drop (maxSize - overlap) s"
    from False 1(2) have len: "overlap \<le> length ?rest" by simp
    have "concat (map (drop overlap) (windows maxSize overlap s)) =
          drop overlap (take maxSize s) @ concat (map (drop overlap) (windows maxSize overlap ?rest))"
      using False by (subst windows.simps) simp
    also have "\<dots> = drop overlap (take maxSize s) @ drop overlap ?rest"
      using 1(1) [OF False 1(2) len] by simp
    also have "\<dots> = drop overlap (take maxSize s) @ drop maxSize s"
      using 1(2) by simp
    also have "\<dots> = drop overlap s"
    proof -
      have "drop overlap s = drop overlap (take maxSize s @ drop maxSize s)"
        by simp
      also have "\<dots> = drop overlap (take maxSize s) @
                        drop (overlap - length (take maxSize s)) (drop maxSize s)"
        by (rule drop_append)
      also have "\<dots> = drop overlap (take maxSize s) @ drop maxSize s"
        using False 1(2) by simp
      finally show ?thesis by (rule sym)
    qed
    finally show ?thesis .
  qed
qed

lemma reassemble_windows:
  assumes "overlap < maxSize"
  shows "reassemble overlap (windows maxSize overlap s) = s"
proof (cases "length s \<le> maxSize \<or> maxSize \<le> overlap")
  case True
  then show ?thesis by (subst windows.simps) simp
next
  case False
  let ?rest = "drop (maxSize - overlap) s"
  from False assms have len: "overlap \<le> length ?rest" by simp
  have "reassemble overlap (windows maxSize overlap s) =
        take maxSize s @ concat (map (drop overlap) (windows maxSize overlap ?rest))"
    using False by (subst windows.simps) simp
  also have "\<dots> = take maxSize s @ drop overlap ?rest"
    by (simp only: windows_drop [OF assms len])
  also have "\<dots> = take maxSize s @ drop maxSize s"
    using assms by simp
  finally show ?thesis by simp
qed

text \<open>
  C5, for the chunker of the specification with the configured sizes: for every non-empty
  (normalized) text, chunking with \<open>maxSize = 1000\<close> and \<open>overlap = 200\<close> succeeds,
  every chunk has at most 1000 characters, and the chunks without the overlaps give the
  text back.
\<close>

theorem chunk_bounded_and_reassembles:
  assumes "s \<noteq> []"
  shows "\<exists>cs. chunk s 1000 200 = Inr cs \<and> (\<forall>c\<in>set cs. length c \<le> 1000) \<and>
           reassemble 200 cs = s"
  using assms windows_lengths [of 200 1000 _ s] reassemble_windows [of 200 1000 s]
  by (simp add: chunk_def)

text \<open>
  A text of 1200 characters.
\<close>

theorem chunk_bounded_and_reassembles_witness:
  "\<exists>cs. chunk (replicate 1200 0x61) 1000 200 = Inr cs \<and> (\<forall>c\<in>set cs. length c \<le> 1000) \<and>
           reassemble 200 cs = replicate 1200 0x61"
  using chunk_bounded_and_reassembles [of "replicate 1200 0x61"] by simp

text \<open>
  The example of the specification: 1200 characters make two chunks, of 1000 and of 400
  characters, the second beginning 200 characters before the end of the first.
\<close>

lemma chunk_example:
  "chunk (replicate 1200 c) 1000 200 = Inr [replicate 1000 c, replicate 400 c]"
  by (simp add: chunk_def windows.simps)

end
